theory Spec2Isabelle
  imports Main
begin

section \<open>JavaScript values and arrays\<close>

text \<open>
  The few JavaScript notions that \<^verbatim>\<open>MetadataSidebar.js\<close> relies on: the truthiness of a
  value (for \<^verbatim>\<open>!!can_upload\<close>) and the array methods \<^verbatim>\<open>slice\<close>, \<^verbatim>\<open>indexOf\<close>,
  \<^verbatim>\<open>findIndex\<close>, \<^verbatim>\<open>find\<close>, \<^verbatim>\<open>push\<close> and \<^verbatim>\<open>splice\<close>, with the behaviour ECMAScript gives
  them on negative indices.
\<close>

datatype jsval =
    JUndefined
  | JNull
  | JBool bool
  | JNumber int
  | JNaN
  | JString string
  | JObject

fun truthy :: "jsval \<Rightarrow> bool" where
  "truthy JUndefined = False"
| "truthy JNull = False"
| "truthy (JBool b) = b"
| "truthy (JNumber n) = (n \<noteq> 0)"
| "truthy JNaN = False"
| "truthy (JString s) = (s \<noteq> [])"
| "truthy JObject = True"

text \<open>\<^verbatim>\<open>xs.slice(begin)\<close>: a fresh array holding the elements from \<^verbatim>\<open>begin\<close> on; a negative
  \<^verbatim>\<open>begin\<close> counts from the end.\<close>

definition slice :: "'a list \<Rightarrow> int \<Rightarrow> 'a list" where
  "slice xs begin' =
     (let len = int (length xs);
          k = (if begin' < 0 then max (len + begin') 0 else min begin' len)
      in drop (nat k) xs)"

text \<open>\<^verbatim>\<open>xs.findIndex(p)\<close>: the index of the first element satisfying \<^verbatim>\<open>p\<close>, or \<^verbatim>\<open>-1\<close>.\<close>

fun findIndex :: "'a list \<Rightarrow> ('a \<Rightarrow> bool) \<Rightarrow> int" where
  "findIndex [] p = -1"
| "findIndex (x # xs) p =
     (if p x then 0
      else (let i = findIndex xs p in if i = -1 then -1 else i + 1))"

text \<open>\<^verbatim>\<open>xs.indexOf(x)\<close>: the index of the first element strictly equal to \<^verbatim>\<open>x\<close>, or \<^verbatim>\<open>-1\<close>.
  On objects strict equality is identity of the object; see \<open>objectId\<close> below.\<close>

definition indexOf :: "'a list \<Rightarrow> 'a \<Rightarrow> int" where
  "indexOf xs x = findIndex xs (\<lambda>y. y = x)"

text \<open>\<^verbatim>\<open>xs.splice(start, deleteCount, ...items)\<close>, returning the array as it is after the
  call. A negative \<^verbatim>\<open>start\<close> counts from the end of the array, so \<^verbatim>\<open>splice(-1, 1)\<close>
  deletes the last element.\<close>

definition splice :: "'a list \<Rightarrow> int \<Rightarrow> int \<Rightarrow> 'a list \<Rightarrow> 'a list" where
  "splice xs start deleteCount items =
     (let len = int (length xs);
          actualStart = (if start < 0 then max (len + start) 0 else min start len);
          actualDeleteCount = min (max deleteCount 0) (len - actualStart)
      in take (nat actualStart) xs @ items @ drop (nat (actualStart + actualDeleteCount)) xs)"

text \<open>\<^verbatim>\<open>xs.push(x)\<close>, returning the array as it is after the call.\<close>

definition push :: "'a list \<Rightarrow> 'a \<Rightarrow> 'a list" where
  "push xs x = xs @ [x]"


section \<open>Data model\<close>

text \<open>
  Modelled from the spec: the Flow types \<^verbatim>\<open>MetadataEditor\<close>, \<^verbatim>\<open>MetadataEditorTemplate\<close>,
  \<^verbatim>\<open>JsonPatchData\<close>, \<^verbatim>\<open>BoxItem\<close> and \<^verbatim>\<open>BoxItemPermission\<close> are used by the component but
  declared outside the sources at hand. An editor is
  \<^verbatim>\<open>{ instance: { id, ...fields }, template, isDirty }\<close>; a template is opaque; a file
  exposes \<^verbatim>\<open>permissions.can_upload\<close>, where \<^verbatim>\<open>permissions\<close> is an optional property (absent
  or an object, by the annotation \<^verbatim>\<open>BoxItem\<close> under which the destructuring in \<^verbatim>\<open>canEdit\<close>
  type-checks) and an absent \<^verbatim>\<open>can_upload\<close> reads as \<^verbatim>\<open>undefined\<close>.

  Editors are JavaScript objects, and \<^verbatim>\<open>indexOf\<close> compares them by identity, not by
  content. The component never mutates an editor in place (\<^verbatim>\<open>onModification\<close> writes to a
  copy), so an object is modelled as an immutable record that carries its identity in the
  field \<open>objectId\<close>: two editors with equal content and different \<open>objectId\<close> are different
  objects, and HOL equality on the record is strict equality on the objects.
\<close>

datatype MetadataEditorTemplate = Template string

record MetadataInstance =
  id' :: string
  fieldValues :: "(string \<times> jsval) list"

record MetadataEditor =
  objectId :: nat
  instance' :: MetadataInstance
  template :: MetadataEditorTemplate
  isDirty :: bool

type_synonym JsonPatchData = "(string \<times> string \<times> jsval) list"

record BoxItemPermission =
  can_upload :: jsval

record BoxItem =
  fileId :: string
  permissions :: "BoxItemPermission option"

text \<open>An external function handed through the props (\<^verbatim>\<open>getMetadata\<close>); opaque here.\<close>

type_synonym Function = string

record Props =
  file' :: BoxItem
  getMetadata :: "Function option"
  isFeatureEnabled :: "bool option"

text \<open>The component state. \<^verbatim>\<open>editors\<close> and \<^verbatim>\<open>templates\<close> are optional: \<open>None\<close> is
  \<^verbatim>\<open>undefined\<close>.\<close>

record State =
  editors :: "MetadataEditor list option"
  templates :: "MetadataEditorTemplate list option"
  isLoading :: bool
  hasError :: bool

text \<open>The class property \<^verbatim>\<open>state = { isLoading: false, hasError: false }\<close>.\<close>

definition initialState :: State where
  "initialState = \<lparr>editors = None, templates = None, isLoading = False, hasError = False\<rparr>"

text \<open>
  A call of the metadata API, as the component issues it: the argument of
  \<^verbatim>\<open>getMetadataAPI\<close>, the arguments of the call, and the two continuations it passes. A
  continuation is the state change it performs when the API invokes it; it reads
  \<^verbatim>\<open>this.state\<close> at that moment, so it is applied to the state of the moment of completion,
  not of issue. \<^verbatim>\<open>setState\<close> merges its argument into the state, which is a record update.
\<close>

datatype request =
    GetEditors bool BoxItem
      "MetadataEditor list \<Rightarrow> MetadataEditorTemplate list \<Rightarrow> State \<Rightarrow> State" "State \<Rightarrow> State"
      "Function option" bool
  | DeleteMetadata bool BoxItem MetadataEditorTemplate "State \<Rightarrow> State" "State \<Rightarrow> State"
  | CreateMetadata bool BoxItem MetadataEditorTemplate
      "MetadataEditor \<Rightarrow> State \<Rightarrow> State" "State \<Rightarrow> State"
  | UpdateMetadata bool BoxItem MetadataEditorTemplate JsonPatchData
      "MetadataEditor \<Rightarrow> State \<Rightarrow> State" "State \<Rightarrow> State"

text \<open>The failure continuation of a call.\<close>

fun onFailure :: "request \<Rightarrow> State \<Rightarrow> State" where
  "onFailure (GetEditors d f ok err g e) = err"
| "onFailure (DeleteMetadata d f t ok err) = err"
| "onFailure (CreateMetadata d f t ok err) = err"
| "onFailure (UpdateMetadata d f t ops ok err) = err"


section \<open>The component\<close>

text \<open>\<^verbatim>\<open>const { editors = [] } = this.state\<close>: the editor list, empty while undefined.\<close>

definition editorList :: "State \<Rightarrow> MetadataEditor list" where
  "editorList st = (case editors st of None \<Rightarrow> [] | Some es \<Rightarrow> es)"

definition errorCallback :: "State \<Rightarrow> State" where
  "errorCallback st = st\<lparr>isLoading := False, hasError := True\<rparr>"

text \<open>The success continuation of \<^verbatim>\<open>getMetadataEditors\<close> (an arrow function in the source).\<close>

definition getEditorsSuccess ::
  "MetadataEditor list \<Rightarrow> MetadataEditorTemplate list \<Rightarrow> State \<Rightarrow> State" where
  "getEditorsSuccess eds tpls st =
     st\<lparr>templates := Some tpls, editors := Some (slice eds 0),
        isLoading := False, hasError := False\<rparr>"

definition getMetadataEditors :: "Props \<Rightarrow> State \<Rightarrow> State \<times> request list" where
  "getMetadataEditors props st =
     (let isFeatureEnabled' = (case isFeatureEnabled props of None \<Rightarrow> True | Some b \<Rightarrow> b)
      in (st, [GetEditors True (file' props) getEditorsSuccess errorCallback
                 (getMetadata props) isFeatureEnabled']))"

definition componentDidMount :: "Props \<Rightarrow> State \<Rightarrow> State \<times> request list" where
  "componentDidMount props st = getMetadataEditors props st"

text \<open>\<^verbatim>\<open>const { permissions = {} } = file\<close>: the default, an object with no property.\<close>

definition emptyObject :: BoxItemPermission where
  "emptyObject = \<lparr>can_upload = JUndefined\<rparr>"

definition canEdit :: "Props \<Rightarrow> bool" where
  "canEdit props =
     (let item = file' props;
          permissions' = (case permissions item of None \<Rightarrow> emptyObject | Some p \<Rightarrow> p);
          can_upload' = can_upload permissions'
      in \<not> \<not> truthy can_upload')"

definition getEditor :: "string \<Rightarrow> State \<Rightarrow> MetadataEditor option" where
  "getEditor ident st = find (\<lambda>e. id' (instance' e) = ident) (editorList st)"

definition onRemoveSuccessHandler :: "MetadataEditor \<Rightarrow> State \<Rightarrow> State" where
  "onRemoveSuccessHandler editor st =
     (let eds = editorList st;
          clone = slice eds 0;
          clone' = splice clone (indexOf eds editor) 1 []
      in st\<lparr>editors := Some clone'\<rparr>)"

definition onRemove :: "Props \<Rightarrow> string \<Rightarrow> State \<Rightarrow> State \<times> request list" where
  "onRemove props ident st =
     (case getEditor ident st of
        None \<Rightarrow> (st, [])
      | Some editor \<Rightarrow>
          (st, [DeleteMetadata False (file' props) (template editor)
                  (onRemoveSuccessHandler editor) errorCallback]))"

definition onAddSuccessHandler :: "MetadataEditor \<Rightarrow> State \<Rightarrow> State" where
  "onAddSuccessHandler editor st =
     (let eds = editorList st;
          clone = slice eds 0;
          clone' = push clone editor
      in st\<lparr>editors := Some clone', isLoading := False\<rparr>)"

definition onAdd :: "Props \<Rightarrow> MetadataEditorTemplate \<Rightarrow> State \<Rightarrow> State \<times> request list" where
  "onAdd props tpl st =
     (st\<lparr>isLoading := True\<rparr>,
      [CreateMetadata False (file' props) tpl onAddSuccessHandler errorCallback])"

definition onSaveSuccessHandler :: "MetadataEditor \<Rightarrow> MetadataEditor \<Rightarrow> State \<Rightarrow> State" where
  "onSaveSuccessHandler oldEditor newEditor st =
     (let eds = editorList st;
          clone = slice eds 0;
          clone' = splice clone (indexOf eds oldEditor) 1 [newEditor]
      in st\<lparr>editors := Some clone'\<rparr>)"

definition onSave :: "Props \<Rightarrow> string \<Rightarrow> JsonPatchData \<Rightarrow> State \<Rightarrow> State \<times> request list" where
  "onSave props ident ops st =
     (case getEditor ident st of
        None \<Rightarrow> (st, [])
      | Some oldEditor \<Rightarrow>
          (st, [UpdateMetadata False (file' props) (template oldEditor) ops
                  (onSaveSuccessHandler oldEditor) errorCallback]))"

text \<open>
  \<^verbatim>\<open>onModification\<close>. The spread \<^verbatim>\<open>{ ...editors[index] }\<close> creates a new object with the
  fields of the old one; \<open>newId\<close> is the identity the runtime gives it.
\<close>

definition onModification :: "nat \<Rightarrow> string \<Rightarrow> bool \<Rightarrow> State \<Rightarrow> State \<times> request list" where
  "onModification newId ident isDirty' st =
     (let eds = editorList st;
          index = findIndex eds (\<lambda>e. id' (instance' e) = ident)
      in if index = -1 then (st, [])
         else
           (let editor = (eds ! nat index)\<lparr>objectId := newId\<rparr>;
                editor' = editor\<lparr>isDirty := isDirty'\<rparr>;
                clone = slice eds 0;
                clone' = splice clone index 1 [editor']
            in (st\<lparr>editors := Some clone'\<rparr>, [])))"


subsection \<open>What \<^verbatim>\<open>render\<close> displays\<close>

text \<open>
  The element tree \<^verbatim>\<open>render\<close> returns, reduced to what it decides: the
  \<^verbatim>\<open>TemplateDropdown\<close> in \<^verbatim>\<open>actions\<close> (or \<^verbatim>\<open>null\<close>), whether \<^verbatim>\<open>InlineError\<close> and
  \<^verbatim>\<open>LoadingIndicator\<close> are present, and the \<^verbatim>\<open>LoadingIndicatorWrapper\<close> with its
  \<^verbatim>\<open>isLoading\<close> prop and its child, \<^verbatim>\<open>EmptyContent\<close> or \<^verbatim>\<open>Instances\<close>.
\<close>

record TemplateDropdown =
  hasTemplates :: bool
  isDropdownBusy :: bool
  dropdownTemplates :: "MetadataEditorTemplate list"
  usedTemplates :: "MetadataEditorTemplate list"

datatype content =
    EmptyContent bool
  | Instances "MetadataEditor list"

record View =
  actions :: "TemplateDropdown option"
  inlineError :: bool
  loadingIndicator :: bool
  editorPanel :: "(bool \<times> content) option"

definition render :: "Props \<Rightarrow> State \<Rightarrow> View" where
  "render props st =
     (let showEditor = (templates st \<noteq> None \<and> editors st \<noteq> None);
          showLoadingIndicator = (\<not> hasError st \<and> \<not> showEditor);
          canEdit' = canEdit props;
          showTemplateDropdown = (showEditor \<and> canEdit');
          tpls = (case templates st of None \<Rightarrow> [] | Some ts \<Rightarrow> ts);
          eds = (case editors st of None \<Rightarrow> [] | Some es \<Rightarrow> es);
          showEmptyContent = (showEditor \<and> length eds = 0)
      in \<lparr>actions =
            (if showTemplateDropdown
             then Some \<lparr>hasTemplates = (length tpls \<noteq> 0), isDropdownBusy = False,
                        dropdownTemplates = tpls, usedTemplates = map template eds\<rparr>
             else None),
          inlineError = hasError st,
          loadingIndicator = showLoadingIndicator,
          editorPanel =
            (if showEditor
             then Some (isLoading st,
                        if showEmptyContent then EmptyContent canEdit' else Instances eds)
             else None)\<rparr>)"


subsection \<open>Sequences of store transitions\<close>

text \<open>
  The three success handlers that reconcile the editor list, named as the specification
  names them: \<open>Insert\<close> is \<^verbatim>\<open>onAddSuccessHandler\<close>, \<open>RemoveById\<close> is
  \<^verbatim>\<open>onRemoveSuccessHandler\<close> and \<open>ReplaceOne\<close> is \<^verbatim>\<open>onSaveSuccessHandler\<close>. \<open>run\<close> gives the
  state after every step of a sequence.
\<close>

datatype storeOp =
    Insert MetadataEditor
  | RemoveById MetadataEditor
  | ReplaceOne MetadataEditor MetadataEditor

fun applyOp :: "storeOp \<Rightarrow> State \<Rightarrow> State" where
  "applyOp (Insert e) st = onAddSuccessHandler e st"
| "applyOp (RemoveById e) st = onRemoveSuccessHandler e st"
| "applyOp (ReplaceOne old new) st = onSaveSuccessHandler old new st"

fun run :: "storeOp list \<Rightarrow> State \<Rightarrow> State list" where
  "run [] st = []"
| "run (x # xs) st = applyOp x st # run xs (applyOp x st)"

definition editorIds :: "State \<Rightarrow> string list" where
  "editorIds st = map (\<lambda>e. id' (instance' e)) (editorList st)"

definition uniqueIds :: "State \<Rightarrow> bool" where
  "uniqueIds st = distinct (editorIds st)"

text \<open>Every inserted editor's id is not yet present when it is inserted.\<close>

fun insertsFresh :: "storeOp list \<Rightarrow> State \<Rightarrow> bool" where
  "insertsFresh [] st = True"
| "insertsFresh (Insert e # xs) st =
     (id' (instance' e) \<notin> set (editorIds st) \<and> insertsFresh xs (applyOp (Insert e) st))"
| "insertsFresh (x # xs) st = insertsFresh xs (applyOp x st)"

text \<open>
  The stronger precondition: moreover a replaced editor is in the list, and its
  replacement carries the same id or an id that is not in the list.
\<close>

fun opAllowed :: "storeOp \<Rightarrow> State \<Rightarrow> bool" where
  "opAllowed (Insert e) st = (id' (instance' e) \<notin> set (editorIds st))"
| "opAllowed (RemoveById e) st = True"
| "opAllowed (ReplaceOne old new) st =
     (old \<in> set (editorList st) \<and>
      (id' (instance' new) = id' (instance' old) \<or>
       id' (instance' new) \<notin> set (editorIds st)))"

fun allAllowed :: "storeOp list \<Rightarrow> State \<Rightarrow> bool" where
  "allAllowed [] st = True"
| "allAllowed (x # xs) st = (opAllowed x st \<and> allAllowed xs (applyOp x st))"


subsection \<open>Example data\<close>

definition mkEditor :: "nat \<Rightarrow> string \<Rightarrow> bool \<Rightarrow> MetadataEditor" where
  "mkEditor obj ident dirty =
     \<lparr>objectId = obj, instance' = \<lparr>id' = ident, fieldValues = []\<rparr>,
      template = Template ident, isDirty = dirty\<rparr>"

definition storeOf :: "MetadataEditor list \<Rightarrow> State" where
  "storeOf es =
     \<lparr>editors = Some es, templates = Some [Template ''1'', Template ''2''],
      isLoading = False, hasError = False\<rparr>"

definition propsWith :: "BoxItemPermission option \<Rightarrow> Props" where
  "propsWith perms =
     \<lparr>file' = \<lparr>fileId = ''f'', permissions = perms\<rparr>,
      getMetadata = None, isFeatureEnabled = None\<rparr>"


section \<open>Array methods\<close>

lemma slice_0: "slice xs 0 = xs"
  by (simp add: slice_def)

lemma findIndex_range: "findIndex xs p = -1 \<or> (0 \<le> findIndex xs p \<and> findIndex xs p < int (length xs))"
  by (induction xs) (auto simp: Let_def)

lemma findIndex_absent: "(findIndex xs p = -1) = (\<forall>x\<in>set xs. \<not> p x)"
proof (induction xs)
  case Nil
  show ?case by simp
next
  case (Cons a xs)
  have "findIndex xs p = -1 \<or> 0 \<le> findIndex xs p"
    using findIndex_range [of xs p] by auto
  with Cons show ?case by (auto simp: Let_def)
qed

lemma findIndex_first:
  "findIndex xs p \<noteq> -1 \<Longrightarrow>
     nat (findIndex xs p) < length xs \<and> p (xs ! nat (findIndex xs p)) \<and>
     (\<forall>j < nat (findIndex xs p). \<not> p (xs ! j))"
proof (induction xs)
  case Nil
  then show ?case by simp
next
  case (Cons a xs)
  show ?case
  proof (cases "p a")
    case True
    then show ?thesis by simp
  next
    case False
    with Cons.prems have ne: "findIndex xs p \<noteq> -1"
      by (auto simp: Let_def split: if_splits)
    have nn: "0 \<le> findIndex xs p"
      using findIndex_range [of xs p] ne by auto
    have eq: "nat (findIndex (a # xs) p) = Suc (nat (findIndex xs p))"
      using False ne nn by (simp add: Let_def nat_add_distrib)
    from Cons.IH [OF ne] False show ?thesis
      unfolding eq by (auto simp: less_Suc_eq_0_disj)
  qed
qed

lemma findIndex_is_first:
  assumes i: "i < length xs" and p: "p (xs ! i)" and f: "\<forall>j < i. \<not> p (xs ! j)"
  shows "findIndex xs p = int i"
proof -
  from i p have ne: "findIndex xs p \<noteq> -1"
    by (auto simp: findIndex_absent)
  then have nn: "0 \<le> findIndex xs p"
    using findIndex_range [of xs p] by auto
  let ?k = "nat (findIndex xs p)"
  from findIndex_first [OF ne]
  have pk: "p (xs ! ?k)" and fk: "\<forall>j < ?k. \<not> p (xs ! j)"
    by simp_all
  have "?k = i"
  proof (cases ?k i rule: linorder_cases)
    case less
    with f pk show ?thesis by blast
  next
    case equal
    then show ?thesis .
  next
    case greater
    with fk p show ?thesis by blast
  qed
  with nn show ?thesis by simp
qed

lemma splice_at:
  assumes "0 \<le> i" and "nat i < length xs"
  shows "splice xs i 1 items = take (nat i) xs @ items @ drop (Suc (nat i)) xs"
proof -
  from assms have lt: "i < int (length xs)" by linarith
  from assms lt have s: "(if i < 0 then max (int (length xs) + i) 0 else min i (int (length xs))) = i"
    by simp
  from lt have d: "min (max (1::int) 0) (int (length xs) - i) = 1"
    by simp
  from assms have n: "nat (i + 1) = Suc (nat i)"
    by simp
  show ?thesis
    unfolding splice_def Let_def s d n ..
qed

lemma splice_replace:
  "0 \<le> i \<Longrightarrow> nat i < length xs \<Longrightarrow> splice xs i 1 [y] = xs[nat i := y]"
  by (simp add: splice_at upd_conv_take_nth_drop)

lemma splice_last:
  "splice xs (-1) 1 items = butlast xs @ items"
proof (cases xs rule: rev_cases)
  case Nil
  then show ?thesis by (simp add: splice_def)
next
  case (snoc ys y)
  have s: "(if (-1::int) < 0 then max (int (length xs) + (-1)) 0 else min (-1) (int (length xs)))
             = int (length ys)"
    using snoc by simp
  have d: "min (max (1::int) 0) (int (length xs) - int (length ys)) = 1"
    using snoc by simp
  have n: "nat (int (length ys) + 1) = Suc (length ys)"
    by simp
  show ?thesis
    unfolding splice_def Let_def s d n using snoc by simp
qed


lemma indexOf_absent: "(indexOf xs x = -1) = (x \<notin> set xs)"
  by (auto simp: indexOf_def findIndex_absent)

lemma indexOf_first:
  assumes "x \<in> set xs"
  shows "0 \<le> indexOf xs x" and "nat (indexOf xs x) < length xs"
    and "xs ! nat (indexOf xs x) = x" and "\<forall>j < nat (indexOf xs x). xs ! j \<noteq> x"
proof -
  from assms have ne: "findIndex xs (\<lambda>y. y = x) \<noteq> -1"
    by (auto simp: findIndex_absent)
  show "0 \<le> indexOf xs x"
    using findIndex_range [of xs "\<lambda>y. y = x"] ne by (auto simp: indexOf_def)
  from findIndex_first [OF ne]
  show "nat (indexOf xs x) < length xs" and "xs ! nat (indexOf xs x) = x"
    and "\<forall>j < nat (indexOf xs x). xs ! j \<noteq> x"
    by (simp_all add: indexOf_def)
qed

section \<open>The success handlers on the editor list\<close>

lemma editorList_editors [simp]: "editorList (st\<lparr>editors := Some es\<rparr>) = es"
  by (simp add: editorList_def)

lemma editorList_editors_isLoading [simp]:
  "editorList (st\<lparr>editors := Some es, isLoading := b\<rparr>) = es"
  by (simp add: editorList_def)

lemma onAddSuccessHandler_eq:
  "onAddSuccessHandler e st = st\<lparr>editors := Some (editorList st @ [e]), isLoading := False\<rparr>"
  by (simp add: onAddSuccessHandler_def Let_def slice_0 push_def)

lemma onSaveSuccessHandler_present:
  "old \<in> set (editorList st) \<Longrightarrow>
     onSaveSuccessHandler old new st =
       st\<lparr>editors := Some ((editorList st)[nat (indexOf (editorList st) old) := new])\<rparr>"
  by (simp add: onSaveSuccessHandler_def Let_def slice_0 splice_replace indexOf_first)

lemma onSaveSuccessHandler_absent:
  "old \<notin> set (editorList st) \<Longrightarrow>
     onSaveSuccessHandler old new st = st\<lparr>editors := Some (butlast (editorList st) @ [new])\<rparr>"
  by (simp add: onSaveSuccessHandler_def Let_def slice_0 splice_last indexOf_absent [THEN iffD2])

lemma onRemoveSuccessHandler_present:
  "e \<in> set (editorList st) \<Longrightarrow>
     onRemoveSuccessHandler e st =
       st\<lparr>editors := Some (take (nat (indexOf (editorList st) e)) (editorList st) @
                            drop (Suc (nat (indexOf (editorList st) e))) (editorList st))\<rparr>"
  by (simp add: onRemoveSuccessHandler_def Let_def slice_0 splice_at indexOf_first)

lemma onRemoveSuccessHandler_absent:
  "e \<notin> set (editorList st) \<Longrightarrow>
     onRemoveSuccessHandler e st = st\<lparr>editors := Some (butlast (editorList st))\<rparr>"
  by (simp add: onRemoveSuccessHandler_def Let_def slice_0 splice_last indexOf_absent [THEN iffD2])

lemma getEditor_None: "(getEditor ident st = None) = (\<forall>e\<in>set (editorList st). id' (instance' e) \<noteq> ident)"
  by (auto simp: getEditor_def find_None_iff)

lemma getEditor_Some:
  "getEditor ident st = Some e \<Longrightarrow> e \<in> set (editorList st) \<and> id' (instance' e) = ident"
  by (auto simp: getEditor_def find_Some_iff)

lemma onRemove_absent:
  "\<forall>e\<in>set (editorList st). id' (instance' e) \<noteq> ident \<Longrightarrow> onRemove props ident st = (st, [])"
  by (simp add: onRemove_def getEditor_None [THEN iffD2])

lemma onRemove_present:
  "getEditor ident st = Some e \<Longrightarrow>
     onRemove props ident st =
       (st, [DeleteMetadata False (file' props) (template e) (onRemoveSuccessHandler e)
               errorCallback]) \<and>
     onRemoveSuccessHandler e st = st\<lparr>editors := Some (remove1 e (editorList st))\<rparr>"
proof -
  assume g: "getEditor ident st = Some e"
  then have m: "e \<in> set (editorList st)"
    by (simp add: getEditor_Some)
  have r: "\<And>xs. e \<in> set xs \<Longrightarrow>
             take (nat (indexOf xs e)) xs @ drop (Suc (nat (indexOf xs e))) xs = remove1 e xs"
  proof -
    fix xs :: "MetadataEditor list"
    assume "e \<in> set xs"
    then show "take (nat (indexOf xs e)) xs @ drop (Suc (nat (indexOf xs e))) xs = remove1 e xs"
    proof (induction xs)
      case Nil
      then show ?case by simp
    next
      case (Cons a xs)
      show ?case
      proof (cases "a = e")
        case True
        then show ?thesis by (simp add: indexOf_def)
      next
        case False
        with Cons.prems have m': "e \<in> set xs" by simp
        have nn: "0 \<le> indexOf xs e" and ne: "indexOf xs e \<noteq> -1"
          using indexOf_first(1) [OF m'] indexOf_absent [of xs e] m' by auto
        have "indexOf (a # xs) e = indexOf xs e + 1"
          using False ne by (simp add: indexOf_def Let_def)
        then have "nat (indexOf (a # xs) e) = Suc (nat (indexOf xs e))"
          using nn by simp
        with Cons.IH [OF m'] False show ?thesis by simp
      qed
    qed
  qed
  show ?thesis
    using g by (simp add: onRemove_def onRemoveSuccessHandler_present [OF m] r [OF m])
qed

lemma onModification_absent:
  "\<forall>e\<in>set (editorList st). id' (instance' e) \<noteq> ident \<Longrightarrow>
     onModification newId ident d st = (st, [])"
  by (simp add: onModification_def Let_def findIndex_absent [THEN iffD2])

lemma onModification_present:
  assumes "i < length (editorList st)" and "id' (instance' (editorList st ! i)) = ident"
    and "\<forall>j < i. id' (instance' (editorList st ! j)) \<noteq> ident"
  shows "onModification newId ident d st =
           (st\<lparr>editors := Some ((editorList st)
                  [i := (editorList st ! i)\<lparr>objectId := newId, isDirty := d\<rparr>])\<rparr>, [])"
proof -
  have ix: "findIndex (editorList st) (\<lambda>e. id' (instance' e) = ident) = int i"
    using assms by (intro findIndex_is_first) simp_all
  show ?thesis
    using assms(1) by (simp add: onModification_def Let_def ix slice_0 splice_replace)
qed

lemma onModification_no_request: "snd (onModification newId ident d st) = []"
  by (simp add: onModification_def Let_def)

section \<open>Uniqueness of editor ids\<close>

lemma distinct_without:
  "distinct ys \<Longrightarrow> distinct (take i ys @ drop (Suc i) ys)"
proof -
  assume d: "distinct ys"
  have "set (drop (Suc i) ys) \<subseteq> set (drop i ys)"
    by (simp add: set_drop_subset_set_drop)
  moreover from d have "set (take i ys) \<inter> set (drop i ys) = {}"
    by (metis append_take_drop_id distinct_append)
  ultimately have "set (take i ys) \<inter> set (drop (Suc i) ys) = {}"
    by auto
  with d show ?thesis by simp
qed

lemma uniqueIds_insert:
  "uniqueIds st \<Longrightarrow> id' (instance' e) \<notin> set (editorIds st) \<Longrightarrow>
     uniqueIds (onAddSuccessHandler e st)"
  by (simp add: uniqueIds_def editorIds_def onAddSuccessHandler_eq)

lemma uniqueIds_remove: "uniqueIds st \<Longrightarrow> uniqueIds (onRemoveSuccessHandler e st)"
proof (cases "e \<in> set (editorList st)")
  case True
  assume "uniqueIds st"
  then have "distinct (map (\<lambda>e. id' (instance' e)) (editorList st))"
    by (simp add: uniqueIds_def editorIds_def)
  from distinct_without [OF this] show ?thesis
    by (simp add: uniqueIds_def editorIds_def onRemoveSuccessHandler_present [OF True]
          take_map drop_map)
next
  case False
  assume "uniqueIds st"
  then show ?thesis
    by (simp add: uniqueIds_def editorIds_def onRemoveSuccessHandler_absent [OF False]
          map_butlast distinct_butlast)
qed

lemma uniqueIds_replace:
  assumes u: "uniqueIds st" and p: "old \<in> set (editorList st)"
    and n: "id' (instance' new) = id' (instance' old) \<or>
            id' (instance' new) \<notin> set (editorIds st)"
  shows "uniqueIds (onSaveSuccessHandler old new st)"
proof -
  let ?es = "editorList st"
  let ?f = "\<lambda>e. id' (instance' e)"
  let ?i = "nat (indexOf ?es old)"
  from u have d: "distinct (map ?f ?es)"
    by (simp add: uniqueIds_def editorIds_def)
  have i: "?i < length ?es" and at: "?es ! ?i = old"
    using indexOf_first [OF p] by simp_all
  from n have "?f new \<notin> set (map ?f ?es) - {map ?f ?es ! ?i}"
    using i at by (auto simp: editorIds_def)
  with d have "distinct ((map ?f ?es)[?i := ?f new])"
    by (rule distinct_list_update)
  then show ?thesis
    by (simp add: uniqueIds_def editorIds_def onSaveSuccessHandler_present [OF p] map_update)
qed

lemma opAllowed_uniqueIds: "uniqueIds st \<Longrightarrow> opAllowed x st \<Longrightarrow> uniqueIds (applyOp x st)"
  by (cases x) (simp_all add: uniqueIds_insert uniqueIds_remove uniqueIds_replace)

section \<open>The editor list under sequences of transitions\<close>

text \<open>
  C1, as stated: every sequence of \<open>Insert\<close>, \<open>RemoveById\<close> and \<open>ReplaceOne\<close> on a store
  with unique editor ids, in which every inserted editor's id is not yet present, keeps the
  ids unique after every step. This fails: \<^verbatim>\<open>onSaveSuccessHandler\<close> puts whatever editor the
  API returned in the place of the old one and looks at no id. On the store
  \<^verbatim>\<open>[{id:"1"},{id:"2"}]\<close>, replacing the first editor by one with id \<^verbatim>\<open>"2"\<close> gives
  \<^verbatim>\<open>[{id:"2"},{id:"2"}]\<close>.
\<close>

theorem C1_counterexample:
  "uniqueIds (storeOf [mkEditor 1 ''1'' False, mkEditor 2 ''2'' False]) \<and>
   insertsFresh [ReplaceOne (mkEditor 1 ''1'' False) (mkEditor 3 ''2'' False)]
     (storeOf [mkEditor 1 ''1'' False, mkEditor 2 ''2'' False]) \<and>
   \<not> list_all uniqueIds
       (run [ReplaceOne (mkEditor 1 ''1'' False) (mkEditor 3 ''2'' False)]
          (storeOf [mkEditor 1 ''1'' False, mkEditor 2 ''2'' False]))"
  by code_simp

text \<open>
  C1, amended: for every sequence of \<open>Insert\<close>, \<open>RemoveById\<close> and \<open>ReplaceOne\<close> applied to a
  store with unique editor ids, where every inserted editor's id is not yet present and
  every \<open>ReplaceOne old new\<close> finds \<open>old\<close> in the list of that moment and brings a \<open>new\<close>
  whose id is that of \<open>old\<close> or is not in the list, the editor ids are unique after every
  step.
\<close>

theorem C1_unique_ids_preserved:
  "uniqueIds st \<Longrightarrow> allAllowed xs st \<Longrightarrow> list_all uniqueIds (run xs st)"
proof (induction xs arbitrary: st)
  case Nil
  show ?case by simp
next
  case (Cons x xs)
  from Cons.prems have "uniqueIds (applyOp x st)"
    by (simp add: opAllowed_uniqueIds)
  with Cons show ?case by simp
qed

text \<open>The amended C1 at a sequence of three transitions on \<^verbatim>\<open>[{id:"1"},{id:"2"}]\<close>.\<close>

theorem C1_unique_ids_preserved_witness:
  "uniqueIds (storeOf [mkEditor 1 ''1'' False, mkEditor 2 ''2'' False]) \<and>
   allAllowed
     [Insert (mkEditor 3 ''3'' False),
      ReplaceOne (mkEditor 1 ''1'' False) (mkEditor 4 ''1'' True),
      RemoveById (mkEditor 2 ''2'' False)]
     (storeOf [mkEditor 1 ''1'' False, mkEditor 2 ''2'' False]) \<and>
   list_all uniqueIds
     (run [Insert (mkEditor 3 ''3'' False),
           ReplaceOne (mkEditor 1 ''1'' False) (mkEditor 4 ''1'' True),
           RemoveById (mkEditor 2 ''2'' False)]
        (storeOf [mkEditor 1 ''1'' False, mkEditor 2 ''2'' False]))"
proof -
  have u: "uniqueIds (storeOf [mkEditor 1 ''1'' False, mkEditor 2 ''2'' False])"
    by code_simp
  have a: "allAllowed
     [Insert (mkEditor 3 ''3'' False),
      ReplaceOne (mkEditor 1 ''1'' False) (mkEditor 4 ''1'' True),
      RemoveById (mkEditor 2 ''2'' False)]
     (storeOf [mkEditor 1 ''1'' False, mkEditor 2 ''2'' False])"
    by code_simp
  from C1_unique_ids_preserved [OF u a] u a show ?thesis
    by blast
qed

text \<open>
  Why the amended statement asks for the old editor to be in the list: a second save
  success for an editor that a first one has already replaced finds no index
  (\<^verbatim>\<open>indexOf\<close> is \<^verbatim>\<open>-1\<close>) and overwrites the last entry, although both replacements keep
  the id.
\<close>

lemma stale_save_duplicates_id:
  "uniqueIds (storeOf [mkEditor 1 ''1'' False, mkEditor 2 ''2'' False]) \<and>
   insertsFresh
     [ReplaceOne (mkEditor 1 ''1'' False) (mkEditor 3 ''1'' False),
      ReplaceOne (mkEditor 1 ''1'' False) (mkEditor 4 ''1'' False)]
     (storeOf [mkEditor 1 ''1'' False, mkEditor 2 ''2'' False]) \<and>
   map editorIds
     (run [ReplaceOne (mkEditor 1 ''1'' False) (mkEditor 3 ''1'' False),
           ReplaceOne (mkEditor 1 ''1'' False) (mkEditor 4 ''1'' False)]
        (storeOf [mkEditor 1 ''1'' False, mkEditor 2 ''2'' False]))
     = [[''1'', ''2''], [''1'', ''1'']]"
  by code_simp


section \<open>Removing an editor\<close>

text \<open>
  C2: the remove-success operation removes exactly the editor with the given id and is a
  no-op, leaving the editor list unchanged, when no editor with that id is in the current
  list; on \<^verbatim>\<open>[{id:"1"},{id:"2"}]\<close>, removing \<^verbatim>\<open>"2"\<close> gives \<^verbatim>\<open>[{id:"1"}]\<close> and removing
  \<^verbatim>\<open>"2"\<close> again leaves \<^verbatim>\<open>[{id:"1"}]\<close>.

  \<^verbatim>\<open>onRemoveSuccessHandler\<close> does not do the second part. \<^verbatim>\<open>onRemove("2")\<close> captures the
  editor object in the success continuation of its \<^verbatim>\<open>deleteMetadata\<close> call. The first
  completion removes the editor. A second completion for the same editor (issued by a
  second \<^verbatim>\<open>onRemove("2")\<close> before the first call completed, while the editor was still in
  the list) runs on \<^verbatim>\<open>[{id:"1"}]\<close>, where no editor has id \<^verbatim>\<open>"2"\<close>: \<^verbatim>\<open>indexOf\<close> is
  \<^verbatim>\<open>-1\<close>, \<^verbatim>\<open>splice(-1, 1)\<close> deletes the last element, and the list becomes \<^verbatim>\<open>[]\<close>.
  \<^verbatim>\<open>onModification\<close> tests its index against \<^verbatim>\<open>-1\<close>; this handler does not.
\<close>

theorem C2_stale_remove_drops_last:
  "onRemove (propsWith None) ''2'' (storeOf [mkEditor 1 ''1'' False, mkEditor 2 ''2'' False]) =
     (storeOf [mkEditor 1 ''1'' False, mkEditor 2 ''2'' False],
      [DeleteMetadata False (file' (propsWith None)) (Template ''2'')
         (onRemoveSuccessHandler (mkEditor 2 ''2'' False)) errorCallback]) \<and>
   onRemoveSuccessHandler (mkEditor 2 ''2'' False)
     (storeOf [mkEditor 1 ''1'' False, mkEditor 2 ''2'' False]) =
     storeOf [mkEditor 1 ''1'' False] \<and>
   getEditor ''2'' (storeOf [mkEditor 1 ''1'' False]) = None \<and>
   onRemoveSuccessHandler (mkEditor 2 ''2'' False) (storeOf [mkEditor 1 ''1'' False]) =
     storeOf []"
proof -
  have a: "getEditor ''2'' (storeOf [mkEditor 1 ''1'' False, mkEditor 2 ''2'' False])
             = Some (mkEditor 2 ''2'' False)"
    by code_simp
  have b: "template (mkEditor 2 ''2'' False) = Template ''2''"
    by (simp add: mkEditor_def)
  have c: "onRemoveSuccessHandler (mkEditor 2 ''2'' False)
     (storeOf [mkEditor 1 ''1'' False, mkEditor 2 ''2'' False]) =
     storeOf [mkEditor 1 ''1'' False]"
    by code_simp
  have d: "getEditor ''2'' (storeOf [mkEditor 1 ''1'' False]) = None"
    by code_simp
  have e: "onRemoveSuccessHandler (mkEditor 2 ''2'' False) (storeOf [mkEditor 1 ''1'' False]) =
     storeOf []"
    by code_simp
  show ?thesis
    using a b c d e by (simp add: onRemove_def)
qed


section \<open>Failure of a request\<close>

text \<open>
  C3, as stated: when an add fails, the store goes to \<^verbatim>\<open>hasError = true\<close> while
  \<^verbatim>\<open>isLoading\<close>, set when the add was issued, is left \<^verbatim>\<open>true\<close>. This fails: the failure
  continuation that \<^verbatim>\<open>onAdd\<close> passes to \<^verbatim>\<open>createMetadata\<close> is \<^verbatim>\<open>errorCallback\<close>, which sets
  \<^verbatim>\<open>isLoading: false\<close>.
\<close>

theorem C3_counterexample:
  "snd (onAdd (propsWith None) (Template ''1'') (storeOf [])) =
     [CreateMetadata False (file' (propsWith None)) (Template ''1'') onAddSuccessHandler
        errorCallback] \<and>
   isLoading (fst (onAdd (propsWith None) (Template ''1'') (storeOf []))) \<and>
   \<not> isLoading (errorCallback (fst (onAdd (propsWith None) (Template ''1'') (storeOf []))))"
  by (simp add: onAdd_def errorCallback_def)

text \<open>
  C3, amended: \<^verbatim>\<open>onAdd\<close> sets \<^verbatim>\<open>isLoading = true\<close> and issues \<^verbatim>\<open>createMetadata\<close> with
  \<^verbatim>\<open>errorCallback\<close> as its failure continuation; when the add fails, the store goes to
  \<^verbatim>\<open>hasError = true\<close> and \<^verbatim>\<open>isLoading = false\<close>, the editors and templates unchanged.
\<close>

theorem C3_add_failure_clears_loading:
  "isLoading (fst (onAdd props tpl st)) \<and>
   map onFailure (snd (onAdd props tpl st)) = [errorCallback] \<and>
   errorCallback (fst (onAdd props tpl st)) = st\<lparr>isLoading := False, hasError := True\<rparr> \<and>
   hasError (errorCallback (fst (onAdd props tpl st))) \<and>
   \<not> isLoading (errorCallback (fst (onAdd props tpl st)))"
  by (simp add: onAdd_def errorCallback_def)

text \<open>
  C4: when the initial list call fails, the state goes to \<^verbatim>\<open>isLoading = false\<close>,
  \<^verbatim>\<open>hasError = true\<close>, and \<^verbatim>\<open>render\<close> shows the error alone: no loading indicator, no
  editor list (and no template dropdown). The list call is issued by
  \<^verbatim>\<open>componentDidMount\<close> on the initial state, with \<^verbatim>\<open>errorCallback\<close> as its failure
  continuation.
\<close>

theorem C4_list_failure_shows_error_only:
  "componentDidMount props initialState =
     (initialState,
      [GetEditors True (file' props) getEditorsSuccess errorCallback (getMetadata props)
         (case isFeatureEnabled props of None \<Rightarrow> True | Some b \<Rightarrow> b)]) \<and>
   isLoading (errorCallback initialState) = False \<and>
   hasError (errorCallback initialState) = True \<and>
   render props (errorCallback initialState) =
     \<lparr>actions = None, inlineError = True, loadingIndicator = False, editorPanel = None\<rparr>"
  by (simp add: componentDidMount_def getMetadataEditors_def errorCallback_def initialState_def
        render_def)


section \<open>Saving an editor\<close>

text \<open>
  C5: for every state, \<^verbatim>\<open>onSave\<close> with an id that no editor of the current list carries
  is a silent no-op: it issues no API call and returns the state as it was (editors,
  templates, \<^verbatim>\<open>isLoading\<close> and \<^verbatim>\<open>hasError\<close>).
\<close>

theorem C5_save_unknown_id_is_noop:
  "\<forall>e\<in>set (editorList st). id' (instance' e) \<noteq> ident \<Longrightarrow> onSave props ident ops st = (st, [])"
  by (simp add: onSave_def getEditor_None [THEN iffD2])

text \<open>C5 on \<^verbatim>\<open>[{id:"1"},{id:"2"}]\<close> with the id \<^verbatim>\<open>"3"\<close>, and on the initial state, whose
  editor list is undefined.\<close>

theorem C5_save_unknown_id_is_noop_witness:
  "list_all (\<lambda>e. id' (instance' e) \<noteq> ''3'')
     (editorList (storeOf [mkEditor 1 ''1'' False, mkEditor 2 ''2'' False])) \<and>
   onSave (propsWith None) ''3'' [] (storeOf [mkEditor 1 ''1'' False, mkEditor 2 ''2'' False]) =
     (storeOf [mkEditor 1 ''1'' False, mkEditor 2 ''2'' False], []) \<and>
   onSave (propsWith None) ''3'' [] initialState = (initialState, [])"
proof -
  have h: "\<forall>e\<in>set (editorList (storeOf [mkEditor 1 ''1'' False, mkEditor 2 ''2'' False])).
             id' (instance' e) \<noteq> ''3''"
    by (simp add: editorList_def storeOf_def mkEditor_def)
  have i: "\<forall>e\<in>set (editorList initialState). id' (instance' e) \<noteq> ''3''"
    by (simp add: editorList_def initialState_def)
  from h C5_save_unknown_id_is_noop [OF h] C5_save_unknown_id_is_noop [OF i]
  show ?thesis
    by (simp add: list_all_iff)
qed

text \<open>
  C6: when the old editor is in the current list, the save-success handler puts the new
  editor at the position of the old one (its first occurrence, the only one in a list
  that holds no object twice) and changes nothing else: the length, the order, every
  other entry and the rest of the state stay.
\<close>

theorem C6_replaceOne_in_place:
  "old \<in> set (editorList st) \<Longrightarrow>
     \<exists>i < length (editorList st).
        editorList st ! i = old \<and>
        (\<forall>j < i. editorList st ! j \<noteq> old) \<and>
        onSaveSuccessHandler old new st = st\<lparr>editors := Some ((editorList st)[i := new])\<rparr>"
  using indexOf_first [of old "editorList st"] onSaveSuccessHandler_present [of old st new]
  by blast

text \<open>C6 on a list of three editors, replacing the second.\<close>

theorem C6_replaceOne_in_place_witness:
  "mkEditor 12 ''2'' False
     \<in> set (editorList (storeOf [mkEditor 11 ''1'' False, mkEditor 12 ''2'' False,
                                mkEditor 13 ''3'' False])) \<and>
   onSaveSuccessHandler (mkEditor 12 ''2'' False) (mkEditor 19 ''2'' False)
     (storeOf [mkEditor 11 ''1'' False, mkEditor 12 ''2'' False, mkEditor 13 ''3'' False]) =
     storeOf [mkEditor 11 ''1'' False, mkEditor 19 ''2'' False, mkEditor 13 ''3'' False]"
proof -
  let ?st = "storeOf [mkEditor 11 ''1'' False, mkEditor 12 ''2'' False, mkEditor 13 ''3'' False]"
  have es: "editorList ?st = [mkEditor 11 ''1'' False, mkEditor 12 ''2'' False, mkEditor 13 ''3'' False]"
    by (simp add: storeOf_def editorList_def)
  have m: "mkEditor 12 ''2'' False \<in> set (editorList ?st)"
    by (simp add: es)
  from C6_replaceOne_in_place [OF m, of "mkEditor 19 ''2'' False"]
  obtain i where i: "i < length (editorList ?st)"
    and at: "editorList ?st ! i = mkEditor 12 ''2'' False"
    and eq: "onSaveSuccessHandler (mkEditor 12 ''2'' False) (mkEditor 19 ''2'' False) ?st =
               ?st\<lparr>editors := Some ((editorList ?st)[i := mkEditor 19 ''2'' False])\<rparr>"
    by blast
  from i have "i = 0 \<or> i = Suc 0 \<or> i = 2"
    unfolding es by auto
  moreover from at
  have "[mkEditor 11 ''1'' False, mkEditor 12 ''2'' False, mkEditor 13 ''3'' False] ! i
          = mkEditor 12 ''2'' False"
    unfolding es .
  ultimately have "i = Suc 0"
    by (auto simp: mkEditor_def)
  with eq have "onSaveSuccessHandler (mkEditor 12 ''2'' False) (mkEditor 19 ''2'' False) ?st =
      ?st\<lparr>editors := Some ([mkEditor 11 ''1'' False, mkEditor 12 ''2'' False,
                               mkEditor 13 ''3'' False][Suc 0 := mkEditor 19 ''2'' False])\<rparr>"
    unfolding es by simp
  with m show ?thesis
    by (simp add: storeOf_def)
qed


section \<open>What is displayed\<close>

text \<open>
  C7: with an empty editor list, a one-element template list, \<^verbatim>\<open>isLoading = false\<close>,
  \<^verbatim>\<open>hasError = false\<close> and \<^verbatim>\<open>canEdit\<close> true, \<^verbatim>\<open>render\<close> shows \<^verbatim>\<open>EmptyContent\<close> with
  \<^verbatim>\<open>canAdd = true\<close>, and neither the loading indicator nor \<^verbatim>\<open>Instances\<close>.
\<close>

theorem C7_empty_state_with_add:
  "canEdit props \<Longrightarrow>
     render props \<lparr>editors = Some [], templates = Some [t1], isLoading = False,
                   hasError = False\<rparr> =
       \<lparr>actions = Some \<lparr>hasTemplates = True, isDropdownBusy = False,
                         dropdownTemplates = [t1], usedTemplates = []\<rparr>,
        inlineError = False, loadingIndicator = False,
        editorPanel = Some (False, EmptyContent True)\<rparr>"
  by (simp add: render_def)

text \<open>C7 for a file whose \<^verbatim>\<open>permissions.can_upload\<close> is \<^verbatim>\<open>true\<close>.\<close>

theorem C7_empty_state_with_add_witness:
  "canEdit (propsWith (Some \<lparr>can_upload = JBool True\<rparr>)) \<and>
   render (propsWith (Some \<lparr>can_upload = JBool True\<rparr>))
     \<lparr>editors = Some [], templates = Some [Template ''1''], isLoading = False,
      hasError = False\<rparr> =
     \<lparr>actions = Some \<lparr>hasTemplates = True, isDropdownBusy = False,
                       dropdownTemplates = [Template ''1''], usedTemplates = []\<rparr>,
      inlineError = False, loadingIndicator = False,
      editorPanel = Some (False, EmptyContent True)\<rparr>"
proof -
  have c: "canEdit (propsWith (Some \<lparr>can_upload = JBool True\<rparr>))"
    by (simp add: canEdit_def propsWith_def)
  from c C7_empty_state_with_add [OF c, of "Template ''1''"] show ?thesis
    by simp
qed

text \<open>
  C8, as stated: the template dropdown is shown if and only if the template list is
  non-empty and \<^verbatim>\<open>canEdit\<close> is true; it is not shown when the template list is empty. This
  fails: \<^verbatim>\<open>showTemplateDropdown\<close> is \<^verbatim>\<open>!!templates && !!editors && canEdit\<close>, and an empty
  array is truthy, so with empty lists the dropdown is rendered, with
  \<^verbatim>\<open>hasTemplates = false\<close>.
\<close>

theorem C8_counterexample:
  "canEdit (propsWith (Some \<lparr>can_upload = JBool True\<rparr>)) \<and>
   templates \<lparr>editors = Some [], templates = Some [], isLoading = False, hasError = False\<rparr>
     = Some [] \<and>
   actions (render (propsWith (Some \<lparr>can_upload = JBool True\<rparr>))
              \<lparr>editors = Some [], templates = Some [], isLoading = False, hasError = False\<rparr>) =
     Some \<lparr>hasTemplates = False, isDropdownBusy = False, dropdownTemplates = [],
           usedTemplates = []\<rparr>"
  by (simp add: render_def canEdit_def propsWith_def)

text \<open>
  C8, amended: the template dropdown is rendered if and only if the templates and the
  editors are both defined (loaded, possibly empty) and \<^verbatim>\<open>canEdit\<close> is true; it receives
  the template list, and its \<^verbatim>\<open>hasTemplates\<close> prop is true exactly when that list is
  non-empty.
\<close>

theorem C8_dropdown_shown_iff_loaded_and_canEdit:
  "(actions (render props st) \<noteq> None) =
     (templates st \<noteq> None \<and> editors st \<noteq> None \<and> canEdit props) \<and>
   (\<forall>d ts. actions (render props st) = Some d \<longrightarrow> templates st = Some ts \<longrightarrow>
            hasTemplates d = (ts \<noteq> []) \<and> dropdownTemplates d = ts)"
  by (auto simp: render_def Let_def)

text \<open>C8, amended, at three inputs: empty lists with permission, nothing loaded with
  permission, and loaded lists without permission.\<close>

theorem C8_dropdown_shown_iff_loaded_and_canEdit_witness:
  "actions (render (propsWith (Some \<lparr>can_upload = JBool True\<rparr>))
              \<lparr>editors = Some [], templates = Some [], isLoading = False, hasError = False\<rparr>)
     \<noteq> None \<and>
   actions (render (propsWith (Some \<lparr>can_upload = JBool True\<rparr>)) initialState) = None \<and>
   actions (render (propsWith None)
              \<lparr>editors = Some [], templates = Some [Template ''1''], isLoading = False,
               hasError = False\<rparr>) = None"
proof -
  have c: "canEdit (propsWith (Some \<lparr>can_upload = JBool True\<rparr>))"
    by (simp add: canEdit_def propsWith_def)
  have n: "\<not> canEdit (propsWith None)"
    by (simp add: canEdit_def propsWith_def emptyObject_def)
  from c n
    C8_dropdown_shown_iff_loaded_and_canEdit
      [of "propsWith (Some \<lparr>can_upload = JBool True\<rparr>)"
          "\<lparr>editors = Some [], templates = Some [], isLoading = False, hasError = False\<rparr>"]
    C8_dropdown_shown_iff_loaded_and_canEdit
      [of "propsWith (Some \<lparr>can_upload = JBool True\<rparr>)" initialState]
    C8_dropdown_shown_iff_loaded_and_canEdit
      [of "propsWith None"
          "\<lparr>editors = Some [], templates = Some [Template ''1''], isLoading = False,
            hasError = False\<rparr>"]
  show ?thesis
    by (simp add: initialState_def)
qed


section \<open>Marking an editor dirty\<close>

text \<open>
  C9: \<^verbatim>\<open>onModification\<close> is local: it issues no API call. With an id that no editor of
  the list carries it leaves the state unchanged; otherwise it replaces the first editor
  with that id by a copy whose \<^verbatim>\<open>isDirty\<close> is the given flag, the instance and the template
  of that editor, every other editor and the rest of the state unchanged. On
  \<^verbatim>\<open>[{id:"1", isDirty:false}]\<close>, marking \<^verbatim>\<open>"1"\<close> dirty gives \<^verbatim>\<open>[{id:"1", isDirty:true}]\<close>.
\<close>

theorem C9_dirty_toggle_is_local:
  "snd (onModification newId ident d st) = [] \<and>
   ((\<forall>e\<in>set (editorList st). id' (instance' e) \<noteq> ident) \<longrightarrow>
      fst (onModification newId ident d st) = st) \<and>
   (\<forall>i. i < length (editorList st) \<and> id' (instance' (editorList st ! i)) = ident \<and>
        (\<forall>j < i. id' (instance' (editorList st ! j)) \<noteq> ident) \<longrightarrow>
        fst (onModification newId ident d st) =
          st\<lparr>editors := Some ((editorList st)
                 [i := (editorList st ! i)\<lparr>objectId := newId, isDirty := d\<rparr>])\<rparr>)"
proof (intro conjI impI allI)
  show "snd (onModification newId ident d st) = []"
    by (rule onModification_no_request)
next
  assume "\<forall>e\<in>set (editorList st). id' (instance' e) \<noteq> ident"
  then show "fst (onModification newId ident d st) = st"
    by (simp add: onModification_absent)
next
  fix i
  assume "i < length (editorList st) \<and> id' (instance' (editorList st ! i)) = ident \<and>
          (\<forall>j < i. id' (instance' (editorList st ! j)) \<noteq> ident)"
  then have "onModification newId ident d st =
      (st\<lparr>editors := Some ((editorList st)
             [i := (editorList st ! i)\<lparr>objectId := newId, isDirty := d\<rparr>])\<rparr>, [])"
    by (intro onModification_present) simp_all
  then show "fst (onModification newId ident d st) =
      st\<lparr>editors := Some ((editorList st)
            [i := (editorList st ! i)\<lparr>objectId := newId, isDirty := d\<rparr>])\<rparr>"
    by simp
qed

text \<open>C9 on \<^verbatim>\<open>[{id:"1", isDirty:false}]\<close>, with the id \<^verbatim>\<open>"1"\<close> and with the absent id
  \<^verbatim>\<open>"5"\<close>.\<close>

theorem C9_dirty_toggle_is_local_witness:
  "onModification 17 ''1'' True (storeOf [mkEditor 11 ''1'' False]) =
     (storeOf [mkEditor 17 ''1'' True], []) \<and>
   onModification 17 ''5'' True (storeOf [mkEditor 11 ''1'' False]) =
     (storeOf [mkEditor 11 ''1'' False], [])"
proof -
  let ?st = "storeOf [mkEditor 11 ''1'' False]"
  have es: "editorList ?st = [mkEditor 11 ''1'' False]"
    by (simp add: storeOf_def editorList_def)
  have a: "\<forall>e\<in>set (editorList ?st). id' (instance' e) \<noteq> ''5''"
    unfolding es by (simp add: mkEditor_def)
  have p: "0 < length (editorList ?st) \<and> id' (instance' (editorList ?st ! 0)) = ''1'' \<and>
           (\<forall>j < 0. id' (instance' (editorList ?st ! j)) \<noteq> ''1'')"
    unfolding es by (simp add: mkEditor_def)
  from C9_dirty_toggle_is_local [of 17 "''5''" True ?st] a
  have r1: "onModification 17 ''5'' True ?st = (?st, [])"
    by (simp add: prod_eq_iff)
  from C9_dirty_toggle_is_local [of 17 "''1''" True ?st] p
  have "onModification 17 ''1'' True ?st =
          (?st\<lparr>editors := Some ((editorList ?st)
                 [0 := (editorList ?st ! 0)\<lparr>objectId := 17, isDirty := True\<rparr>])\<rparr>, [])"
    by (simp add: prod_eq_iff)
  then have r2: "onModification 17 ''1'' True ?st = (storeOf [mkEditor 17 ''1'' True], [])"
    unfolding es by (simp add: storeOf_def mkEditor_def)
  from r1 r2 show ?thesis by simp
qed


section \<open>Permission to edit\<close>

text \<open>
  C10: \<^verbatim>\<open>canEdit\<close> is true if and only if the file has a permissions object whose
  \<^verbatim>\<open>can_upload\<close> is truthy. With no permissions object, or with \<^verbatim>\<open>can_upload\<close> absent, it
  is false (it does not fail), and then \<^verbatim>\<open>render\<close> offers neither the template dropdown
  nor an \<^verbatim>\<open>EmptyContent\<close> that can add.
\<close>

theorem C10_canEdit_iff_can_upload_truthy:
  "canEdit props = (\<exists>p. permissions (file' props) = Some p \<and> truthy (can_upload p)) \<and>
   (permissions (file' props) = None \<longrightarrow> \<not> canEdit props) \<and>
   (\<forall>p. permissions (file' props) = Some p \<and> can_upload p = JUndefined \<longrightarrow> \<not> canEdit props) \<and>
   (\<not> canEdit props \<longrightarrow>
      actions (render props st) = None \<and>
      (\<forall>b. editorPanel (render props st) \<noteq> Some (b, EmptyContent True)))"
  by (auto simp: canEdit_def emptyObject_def render_def Let_def split: option.splits)

text \<open>C10 for a file without permissions, one without \<^verbatim>\<open>can_upload\<close>, and one that may
  upload.\<close>

theorem C10_canEdit_iff_can_upload_truthy_witness:
  "\<not> canEdit (propsWith None) \<and>
   \<not> canEdit (propsWith (Some \<lparr>can_upload = JUndefined\<rparr>)) \<and>
   canEdit (propsWith (Some \<lparr>can_upload = JBool True\<rparr>)) \<and>
   actions (render (propsWith None) (storeOf [])) = None \<and>
   editorPanel (render (propsWith None) (storeOf [])) = Some (False, EmptyContent False)"
proof -
  have n: "permissions (file' (propsWith None)) = None"
    by (simp add: propsWith_def)
  have u: "permissions (file' (propsWith (Some \<lparr>can_upload = JUndefined\<rparr>))) =
             Some \<lparr>can_upload = JUndefined\<rparr>"
    by (simp add: propsWith_def)
  have t: "permissions (file' (propsWith (Some \<lparr>can_upload = JBool True\<rparr>))) =
             Some \<lparr>can_upload = JBool True\<rparr>"
    by (simp add: propsWith_def)
  from C10_canEdit_iff_can_upload_truthy [of "propsWith None" "storeOf []"] n
  have 1: "\<not> canEdit (propsWith None)" and 2: "actions (render (propsWith None) (storeOf [])) = None"
    by simp_all
  from C10_canEdit_iff_can_upload_truthy [of "propsWith (Some \<lparr>can_upload = JUndefined\<rparr>)" "storeOf []"] u
  have 3: "\<not> canEdit (propsWith (Some \<lparr>can_upload = JUndefined\<rparr>))"
    by simp
  from C10_canEdit_iff_can_upload_truthy [of "propsWith (Some \<lparr>can_upload = JBool True\<rparr>)" "storeOf []"] t
  have 4: "canEdit (propsWith (Some \<lparr>can_upload = JBool True\<rparr>))"
    by simp
  have 5: "editorPanel (render (propsWith None) (storeOf [])) = Some (False, EmptyContent False)"
    using 1 by (simp add: render_def storeOf_def)
  from 1 2 3 4 5 show ?thesis by simp
qed

end
